theory Spec2Isabelle
  imports Main "HOL-Library.Sublist"
begin

section \<open>Regular expressions of the routing table\<close>

text \<open>
  \<^verbatim>\<open>gateway.js\<close> uses two built-in operations on the \<^verbatim>\<open>pattern\<close> of an endpoint:
  \<^verbatim>\<open>pattern.test(url)\<close> in \<^verbatim>\<open>getEndpoint\<close> and \<^verbatim>\<open>req.url.replace(pattern, target)\<close> in
  the request handler. Both are modelled for patterns without flags (no \<^verbatim>\<open>g\<close>, no
  \<^verbatim>\<open>y\<close>), built from literal characters, \<^verbatim>\<open>.\<close>, \<^verbatim>\<open>^\<close>, \<^verbatim>\<open>$\<close>, sequence,
  alternation, the greedy star and numbered capture groups. The matcher is the
  backtracking one of the language: it lists the ways a pattern can match at a
  position in priority order, and the first one is the match.
\<close>

datatype regex =
    Chr char
  | AnyChar
  | Bol
  | Eol
  | Eps
  | Seq regex regex
  | Alt regex regex
  | Star regex
  | Group nat regex

type_synonym captures = "(nat \<times> string) list"

type_synonym mstate = "nat \<times> captures"

definition line_terminator :: "char \<Rightarrow> bool" where
  "line_terminator c = (c = CHR 0x0A \<or> c = CHR 0x0D)"

text \<open>
  One greedy star: an iteration that consumes nothing is rejected, so at most
  \<open>length s\<close> iterations can happen and that much fuel is never used up.
\<close>

primrec star_iter :: "nat \<Rightarrow> (mstate \<Rightarrow> mstate list) \<Rightarrow> mstate \<Rightarrow> mstate list" where
  "star_iter 0 f st = [st]"
| "star_iter (Suc k) f st =
     concat (map (\<lambda>st'. if fst st < fst st' then star_iter k f st' else []) (f st)) @ [st]"

primrec rmatch :: "regex \<Rightarrow> string \<Rightarrow> mstate \<Rightarrow> mstate list" where
  "rmatch (Chr c) s =
     (\<lambda>st. if fst st < length s \<and> s ! fst st = c then [(Suc (fst st), snd st)] else [])"
| "rmatch AnyChar s =
     (\<lambda>st. if fst st < length s \<and> \<not> line_terminator (s ! fst st)
            then [(Suc (fst st), snd st)] else [])"
| "rmatch Bol s = (\<lambda>st. if fst st = 0 then [st] else [])"
| "rmatch Eol s = (\<lambda>st. if fst st = length s then [st] else [])"
| "rmatch Eps s = (\<lambda>st. [st])"
| "rmatch (Seq a b) s = (\<lambda>st. concat (map (rmatch b s) (rmatch a s st)))"
| "rmatch (Alt a b) s = (\<lambda>st. rmatch a s st @ rmatch b s st)"
| "rmatch (Star a) s = star_iter (length s) (rmatch a s)"
| "rmatch (Group n a) s =
     (\<lambda>st. map (\<lambda>st'. (fst st', (n, take (fst st' - fst st) (drop (fst st) s)) # snd st'))
               (rmatch a s st))"

text \<open>The number of capture groups of a pattern.\<close>

primrec ngroups :: "regex \<Rightarrow> nat" where
  "ngroups (Chr c) = 0"
| "ngroups AnyChar = 0"
| "ngroups Bol = 0"
| "ngroups Eol = 0"
| "ngroups Eps = 0"
| "ngroups (Seq a b) = ngroups a + ngroups b"
| "ngroups (Alt a b) = ngroups a + ngroups b"
| "ngroups (Star a) = ngroups a"
| "ngroups (Group n a) = Suc (ngroups a)"

text \<open>
  A match: where it starts, where it ends, and the captures. \<^verbatim>\<open>exec\<close> tries the
  start positions from the left and takes the first position that matches.
\<close>

record rmatch_result =
  m_start :: nat
  m_end :: nat
  m_caps :: captures

definition match_at :: "regex \<Rightarrow> string \<Rightarrow> nat \<Rightarrow> rmatch_result option" where
  "match_at r s i =
     (case rmatch r s (i, []) of
        [] \<Rightarrow> None
      | st # _ \<Rightarrow> Some \<lparr>m_start = i, m_end = fst st, m_caps = snd st\<rparr>)"

fun exec_from :: "regex \<Rightarrow> string \<Rightarrow> nat list \<Rightarrow> rmatch_result option" where
  "exec_from r s [] = None"
| "exec_from r s (i # is) =
     (case match_at r s i of Some m \<Rightarrow> Some m | None \<Rightarrow> exec_from r s is)"

definition regex_exec :: "regex \<Rightarrow> string \<Rightarrow> rmatch_result option" where
  "regex_exec r s = exec_from r s [0 ..< Suc (length s)]"

definition regex_test :: "regex \<Rightarrow> string \<Rightarrow> bool" where
  "regex_test r s = (regex_exec r s \<noteq> None)"

text \<open>A pattern written as a literal string, and \<^verbatim>\<open>(.*)\<close> as group \<open>n\<close>.\<close>

primrec lit :: "string \<Rightarrow> regex" where
  "lit [] = Eps"
| "lit (c # cs) = Seq (Chr c) (lit cs)"

definition rest_group :: "nat \<Rightarrow> regex" where
  "rest_group n = Group n (Star AnyChar)"

subsection \<open>The replacement template of \<^verbatim>\<open>String.prototype.replace\<close>\<close>

text \<open>
  \<^verbatim>\<open>$$\<close> is a dollar sign, \<^verbatim>\<open>$&\<close> the matched text, \<^verbatim>\<open>$`\<close> the text before the match,
  \<^verbatim>\<open>$'\<close> the text after it, \<^verbatim>\<open>$n\<close> and \<^verbatim>\<open>$nn\<close> a capture when the pattern has a
  group of that number (a group that did not take part counts as empty); every
  other character stands for itself.
\<close>

record subst_ctx =
  sc_matched :: string
  sc_before :: string
  sc_after :: string
  sc_caps :: captures
  sc_ngroups :: nat

definition is_digit :: "char \<Rightarrow> bool" where
  "is_digit c = ((48::nat) \<le> of_char c \<and> (of_char c :: nat) \<le> 57)"

definition digit_val :: "char \<Rightarrow> nat" where
  "digit_val c = of_char c - 48"

definition capture :: "subst_ctx \<Rightarrow> nat \<Rightarrow> string" where
  "capture cx n = (case map_of (sc_caps cx) n of None \<Rightarrow> [] | Some g \<Rightarrow> g)"

definition valid_group :: "subst_ctx \<Rightarrow> nat \<Rightarrow> bool" where
  "valid_group cx n = (1 \<le> n \<and> n \<le> sc_ngroups cx)"

fun expand :: "subst_ctx \<Rightarrow> string \<Rightarrow> string" where
  "expand cx [] = []"
| "expand cx [c] = [c]"
| "expand cx (c # d # r) =
     (if c \<noteq> CHR ''$'' then c # expand cx (d # r)
      else if d = CHR ''$'' then CHR ''$'' # expand cx r
      else if d = CHR ''&'' then sc_matched cx @ expand cx r
      else if d = CHR 0x60 then sc_before cx @ expand cx r
      else if d = CHR 0x27 then sc_after cx @ expand cx r
      else if is_digit d then
        (case r of
           e # r' \<Rightarrow>
             if is_digit e \<and> valid_group cx (10 * digit_val d + digit_val e)
             then capture cx (10 * digit_val d + digit_val e) @ expand cx r'
             else if valid_group cx (digit_val d) then capture cx (digit_val d) @ expand cx r
             else c # expand cx (d # r)
         | [] \<Rightarrow>
             if valid_group cx (digit_val d) then capture cx (digit_val d)
             else [c, d])
      else c # expand cx (d # r))"

definition js_replace :: "string \<Rightarrow> regex \<Rightarrow> string \<Rightarrow> string" where
  "js_replace s r tmpl =
     (case regex_exec r s of
        None \<Rightarrow> s
      | Some m \<Rightarrow>
          take (m_start m) s
          @ expand \<lparr>sc_matched = take (m_end m - m_start m) (drop (m_start m) s),
                    sc_before = take (m_start m) s,
                    sc_after = drop (m_end m) s,
                    sc_caps = m_caps m,
                    sc_ngroups = ngroups r\<rparr> tmpl
          @ drop (m_end m) s)"

section \<open>The endpoint table\<close>

text \<open>
  \<^verbatim>\<open>config.endpoints\<close> comes from \<^verbatim>\<open>utils.getConfig()\<close>; each entry has a
  \<^verbatim>\<open>pattern\<close>, a \<^verbatim>\<open>target\<close> and a \<^verbatim>\<open>name\<close>. The \<^verbatim>\<open>for (var i in ...)\<close> loop of
  \<^verbatim>\<open>getEndpoint\<close> visits the indices of the array in ascending order and returns
  at the first entry whose pattern matches; falling off the end returns
  \<^verbatim>\<open>undefined\<close>, here \<open>None\<close>.
\<close>

record endpoint =
  pattern :: regex
  target :: string
  name :: string

fun getEndpoint :: "endpoint list \<Rightarrow> string \<Rightarrow> endpoint option" where
  "getEndpoint [] url = None"
| "getEndpoint (e # es) url =
     (if regex_test (pattern e) url then Some e else getEndpoint es url)"

section \<open>Requests, collaborators and the trace of a run\<close>

text \<open>
  The modules \<^verbatim>\<open>./src/bans\<close>, \<^verbatim>\<open>./src/authentication\<close>, \<^verbatim>\<open>./src/rateLimiting\<close> and
  \<^verbatim>\<open>./src/utils\<close> that \<^verbatim>\<open>gateway.js\<close> requires are collaborators with a contract,
  and \<^verbatim>\<open>http-proxy\<close> and \<^verbatim>\<open>node-uuid\<close> are libraries. What each of them answers is an
  input of the model, a function of the arguments the gateway passes; the theorems
  hold for every such answer.
\<close>

type_synonym token = string

text \<open>
  Modelled from the spec: the error value a collaborator hands to its callback
  (the modules raising it are missing). The spec speaks of a collaborator-specified
  failure with a declared status and body.
\<close>

record js_error =
  err_status :: "nat option"
  err_body :: string

text \<open>
  Modelled from the spec: the contract of \<^verbatim>\<open>bans.checkBan\<close> (\<^verbatim>\<open>src/bans\<close> is missing),
  \<open>checkBan(request-identity) -> (error | denial | pass)\<close>. Pass and error reach the
  callback of \<^verbatim>\<open>gateway.js\<close>; on a denial the guard writes its own status and body and
  the callback is never called.
\<close>

datatype ban_outcome = BanPass | BanError js_error | BanDenied nat string

text \<open>
  Modelled from the spec: the contract of \<^verbatim>\<open>authentication.authenticate\<close>
  (\<^verbatim>\<open>src/authentication\<close> is missing), \<open>authenticate(endpoint, request) -> (error | tokenIdentity)\<close>,
  both through the callback. The collaborator also receives \<^verbatim>\<open>res\<close>, so a third
  answer is that it writes a response itself and never calls back.
\<close>

datatype auth_outcome = AuthOk token | AuthError js_error | AuthRejected nat string

text \<open>
  Modelled from the spec: the contract of \<^verbatim>\<open>rateLimiting.rateLimit\<close>
  (\<^verbatim>\<open>src/rateLimiting\<close> is missing), \<open>rateLimit(...) -> (admit | reject)\<close>. The
  callback of \<^verbatim>\<open>gateway.js\<close> takes no argument: admit calls it, reject writes the
  collaborator's own status and body instead.
\<close>

datatype rate_outcome = RateAdmit | RateReject nat string

text \<open>
  What \<^verbatim>\<open>http-proxy\<close> meets upstream: a response (status and body), which it relays
  to the client and announces with \<^verbatim>\<open>proxyRes\<close>, or a transport failure, which it
  only announces with \<^verbatim>\<open>error\<close> to the registered listener.
\<close>

datatype upstream_outcome = UpstreamResponse nat string | UpstreamError js_error

record proxy_options =
  opt_target :: string
  opt_ignorePath :: bool
  opt_xfwd :: bool
  opt_preserveHeaderKeyCase :: bool
  opt_secure :: bool

record env =
  env_now :: nat
  env_userIP :: "string option"
  env_ban :: "string \<Rightarrow> ban_outcome"
  env_auth :: "endpoint \<Rightarrow> auth_outcome"
  env_rate :: "endpoint \<Rightarrow> token option \<Rightarrow> rate_outcome"
  env_proxyPath :: "proxy_options \<Rightarrow> string"
  env_upstream :: "proxy_options \<Rightarrow> upstream_outcome"

datatype event =
    GetUserIp "string option"
  | CheckBan string ban_outcome
  | UuidV4 string
  | GetEndpoint string "endpoint option"
  | Authenticate endpoint auth_outcome
  | RateLimit endpoint "token option" rate_outcome
  | ProxyWeb proxy_options upstream_outcome
  | LoggerError js_error
  | LogRequest nat
  | Threw
  | Abort nat string
  | CollaboratorResponse nat string
  | Relay nat string

text \<open>
  The request and response objects the handler mutates, the headers set on the
  upstream request, the trace of calls, and how many ids \<^verbatim>\<open>uuid.v4\<close> has handed out.
\<close>

record state =
  req_url :: string
  req_startTime :: "nat option"
  req_userIP :: "string option"
  req_requestId :: "string option"
  req_tokenId :: "token option"
  req_endpoint :: "string option"
  req_proxyUrl :: "string option"
  res_headers :: "string \<rightharpoonup> string"
  res_sent :: "(nat \<times> string) option"
  proxyReq_headers :: "string \<rightharpoonup> string"
  trace :: "event list"
  uuid_count :: nat

definition new_request :: "string \<Rightarrow> nat \<Rightarrow> state" where
  "new_request u k =
     \<lparr>req_url = u, req_startTime = None, req_userIP = None, req_requestId = None,
      req_tokenId = None, req_endpoint = None, req_proxyUrl = None,
      res_headers = Map.empty, res_sent = None, proxyReq_headers = Map.empty,
      trace = [], uuid_count = k\<rparr>"

definition emit :: "event \<Rightarrow> state \<Rightarrow> state" where
  "emit e st = st\<lparr>trace := trace st @ [e]\<rparr>"

text \<open>
  Modelled from the spec: \<^verbatim>\<open>utils.abort(req, res, status, body)\<close> (\<^verbatim>\<open>src/utils\<close> is
  missing) writes the final response with the given status and message.
\<close>

definition abort :: "nat \<Rightarrow> string \<Rightarrow> state \<Rightarrow> state" where
  "abort status msg st = emit (Abort status msg) (st\<lparr>res_sent := Some (status, msg)\<rparr>)"

definition respond :: "nat \<Rightarrow> string \<Rightarrow> state \<Rightarrow> state" where
  "respond status msg st =
     emit (CollaboratorResponse status msg) (st\<lparr>res_sent := Some (status, msg)\<rparr>)"

definition logger_error :: "js_error \<Rightarrow> state \<Rightarrow> state" where
  "logger_error err st = emit (LoggerError err) st"

definition errorReq :: "js_error \<Rightarrow> state \<Rightarrow> state" where
  "errorReq err st = abort 500 ''Internal Server Error'' (logger_error err st)"

definition checkBan ::
  "env \<Rightarrow> string \<Rightarrow> state \<Rightarrow> (js_error option \<Rightarrow> state \<Rightarrow> state) \<Rightarrow> state" where
  "checkBan env ip st callback =
     (let out = env_ban env ip; st' = emit (CheckBan ip out) st in
      case out of
        BanPass \<Rightarrow> callback None st'
      | BanError e \<Rightarrow> callback (Some e) st'
      | BanDenied s b \<Rightarrow> respond s b st')"

definition authenticate ::
  "env \<Rightarrow> endpoint \<Rightarrow> state \<Rightarrow> (js_error option \<Rightarrow> token option \<Rightarrow> state \<Rightarrow> state) \<Rightarrow> state" where
  "authenticate env ep st callback =
     (let out = env_auth env ep; st' = emit (Authenticate ep out) st in
      case out of
        AuthOk t \<Rightarrow> callback None (Some t) st'
      | AuthError e \<Rightarrow> callback (Some e) None st'
      | AuthRejected s b \<Rightarrow> respond s b st')"

definition rateLimit ::
  "env \<Rightarrow> endpoint \<Rightarrow> token option \<Rightarrow> state \<Rightarrow> (state \<Rightarrow> state) \<Rightarrow> state" where
  "rateLimit env ep tok st callback =
     (let out = env_rate env ep tok; st' = emit (RateLimit ep tok out) st in
      case out of
        RateAdmit \<Rightarrow> callback st'
      | RateReject s b \<Rightarrow> respond s b st')"

subsection \<open>The listeners on the proxy\<close>

text \<open>
  \<^verbatim>\<open>proxy.on('error', ...)\<close> receives the error and logs it; it does not touch the
  response. \<^verbatim>\<open>proxy.on('proxyReq', ...)\<close> stores the upstream path and sets
  \<^verbatim>\<open>X-Request-ID\<close> on the upstream request and on the response; \<^verbatim>\<open>setHeader\<close> with an
  undefined value throws. \<^verbatim>\<open>proxy.on('proxyRes', ...)\<close> logs the request.
\<close>

definition on_error :: "js_error \<Rightarrow> state \<Rightarrow> state" where
  "on_error err st = logger_error err st"

definition on_proxyReq :: "string \<Rightarrow> state \<Rightarrow> state" where
  "on_proxyReq path st =
     (let st' = st\<lparr>req_proxyUrl := Some path\<rparr> in
      case req_requestId st' of
        None \<Rightarrow> emit Threw st'
      | Some rid \<Rightarrow>
          st'\<lparr>proxyReq_headers := (proxyReq_headers st')(''X-Request-ID'' \<mapsto> rid),
              res_headers := (res_headers st')(''X-Request-ID'' \<mapsto> rid)\<rparr>)"

definition on_proxyRes :: "nat \<Rightarrow> state \<Rightarrow> state" where
  "on_proxyRes status st = emit (LogRequest status) st"

text \<open>
  \<^verbatim>\<open>proxy.web(req, res, options)\<close>: the library opens the upstream request and fires
  \<^verbatim>\<open>proxyReq\<close>; then either the upstream answers (\<^verbatim>\<open>proxyRes\<close> fires and the answer is
  piped to the client) or the transport fails (\<^verbatim>\<open>error\<close> fires, and the library does
  nothing more, since a listener is registered).
\<close>

definition relay :: "nat \<Rightarrow> string \<Rightarrow> state \<Rightarrow> state" where
  "relay status msg st = emit (Relay status msg) (st\<lparr>res_sent := Some (status, msg)\<rparr>)"

definition proxy_web :: "env \<Rightarrow> proxy_options \<Rightarrow> state \<Rightarrow> state" where
  "proxy_web env opts st =
     (let out = env_upstream env opts;
          st1 = emit (ProxyWeb opts out) st;
          st2 = on_proxyReq (env_proxyPath env opts) st1 in
      case out of
        UpstreamResponse s b \<Rightarrow> relay s b (on_proxyRes s st2)
      | UpstreamError e \<Rightarrow> on_error e st2)"

subsection \<open>The request handler\<close>

definition uuid_v4 :: "(nat \<Rightarrow> string) \<Rightarrow> state \<Rightarrow> state" where
  "uuid_v4 uuid st =
     emit (UuidV4 (uuid (uuid_count st)))
       (st\<lparr>req_requestId := Some (uuid (uuid_count st)), uuid_count := Suc (uuid_count st)\<rparr>)"

definition handler :: "endpoint list \<Rightarrow> (nat \<Rightarrow> string) \<Rightarrow> env \<Rightarrow> state \<Rightarrow> state" where
  "handler cfg uuid env st0 =
     (let st1 = emit (GetUserIp (env_userIP env))
                  (st0\<lparr>req_startTime := Some (env_now env), req_userIP := env_userIP env\<rparr>) in
      case env_userIP env of
        None \<Rightarrow> abort 500 ''Internal Server Error'' st1
      | Some ip \<Rightarrow>
          if ip = [] then abort 500 ''Internal Server Error'' st1
          else checkBan env ip st1 (\<lambda>err st2.
            case err of
              Some e \<Rightarrow> errorReq e st2
            | None \<Rightarrow>
                (let st3 = uuid_v4 uuid st2;
                     found = getEndpoint cfg (req_url st3);
                     st4 = emit (GetEndpoint (req_url st3) found) st3 in
                 case found of
                   None \<Rightarrow> abort 404 ''Route not found'' st4
                 | Some ep \<Rightarrow>
                     (let tgt = js_replace (req_url st4) (pattern ep) (target ep) in
                      authenticate env ep st4 (\<lambda>err tokenId st5.
                        case err of
                          Some e \<Rightarrow> errorReq e st5
                        | None \<Rightarrow>
                            (let st6 = st5\<lparr>req_tokenId := tokenId\<rparr> in
                             rateLimit env ep tokenId st6 (\<lambda>st7.
                               proxy_web env
                                 \<lparr>opt_target = tgt, opt_ignorePath = True, opt_xfwd = True,
                                  opt_preserveHeaderKeyCase = True, opt_secure = False\<rparr>
                                 (st7\<lparr>req_endpoint := Some (name ep)\<rparr>))))))))"

definition serve :: "endpoint list \<Rightarrow> (nat \<Rightarrow> string) \<Rightarrow> env \<Rightarrow> string \<Rightarrow> nat \<Rightarrow> state" where
  "serve cfg uuid env u k = handler cfg uuid env (new_request u k)"

text \<open>Requests served one after the other share the id generator.\<close>

fun serve_all :: "endpoint list \<Rightarrow> (nat \<Rightarrow> string) \<Rightarrow> nat \<Rightarrow> (env \<times> string) list \<Rightarrow> state list" where
  "serve_all cfg uuid k [] = []"
| "serve_all cfg uuid k (r # rs) =
     (let st = serve cfg uuid (fst r) (snd r) k in st # serve_all cfg uuid (uuid_count st) rs)"

subsection \<open>Reading a trace\<close>

datatype stage =
  Identity | BanCheck | EndpointResolution | Authentication | RateLimiting | Forwarding

definition pipeline_order :: "stage list" where
  "pipeline_order =
     [Identity, BanCheck, EndpointResolution, Authentication, RateLimiting, Forwarding]"

fun stage_of :: "event \<Rightarrow> stage option" where
  "stage_of (GetUserIp ip) = Some Identity"
| "stage_of (CheckBan ip out) = Some BanCheck"
| "stage_of (GetEndpoint u r) = Some EndpointResolution"
| "stage_of (Authenticate ep out) = Some Authentication"
| "stage_of (RateLimit ep tok out) = Some RateLimiting"
| "stage_of (ProxyWeb opts out) = Some Forwarding"
| "stage_of e = None"

definition stages :: "event list \<Rightarrow> stage list" where
  "stages t = List.map_filter stage_of t"




text \<open>The path of a request URL: what stands before the first question mark.\<close>

definition path_of :: "string \<Rightarrow> string" where
  "path_of u = takeWhile (\<lambda>c. c \<noteq> CHR ''?'') u"

subsection \<open>A small routing table and environment\<close>

text \<open>
  The table of the examples: \<^verbatim>\<open>/\/api\/users\/(.*)/\<close> rewritten to
  \<^verbatim>\<open>http://users-svc/$1\<close>, then the overlapping \<^verbatim>\<open>/^\/api\//\<close>. The second table
  starts with \<^verbatim>\<open>/^\/api\/(.*)\?v=2/\<close>, a pattern that looks at the query string.
\<close>

definition users_endpoint :: endpoint where
  "users_endpoint =
     \<lparr>pattern = Seq (lit ''/api/users/'') (rest_group 1),
      target = ''http://users-svc/$1'', name = ''users''\<rparr>"

definition api_endpoint :: endpoint where
  "api_endpoint =
     \<lparr>pattern = Seq Bol (lit ''/api/''), target = ''http://api-svc/'', name = ''api''\<rparr>"

definition example_cfg :: "endpoint list" where
  "example_cfg = [users_endpoint, api_endpoint]"

definition v2_endpoint :: endpoint where
  "v2_endpoint =
     \<lparr>pattern = Seq Bol (Seq (lit ''/api/'') (Seq (rest_group 1) (lit ''?v=2''))),
      target = ''http://v2-svc/$1'', name = ''v2''\<rparr>"

definition versioned_cfg :: "endpoint list" where
  "versioned_cfg = [v2_endpoint, api_endpoint]"

definition example_uuid :: "nat \<Rightarrow> string" where
  "example_uuid n = ''id-'' @ replicate n (CHR ''x'')"

definition example_env :: env where
  "example_env =
     \<lparr>env_now = 0, env_userIP = Some ''10.0.0.7'',
      env_ban = (\<lambda>ip. BanPass),
      env_auth = (\<lambda>ep. AuthOk ''token-1''),
      env_rate = (\<lambda>ep tok. RateAdmit),
      env_proxyPath = (\<lambda>opts. ''/42?x=1''),
      env_upstream = (\<lambda>opts. UpstreamResponse 200 ''ok'')\<rparr>"

definition unauthorized :: js_error where
  "unauthorized = \<lparr>err_status = Some 401, err_body = ''Unauthorized''\<rparr>"

definition refused :: js_error where
  "refused = \<lparr>err_status = None, err_body = ''connect ECONNREFUSED''\<rparr>"

section \<open>Properties of the request pipeline\<close>

subsection \<open>Unfolding a run\<close>

lemmas pipeline_defs =
  serve_def handler_def new_request_def emit_def abort_def respond_def logger_error_def
  errorReq_def checkBan_def authenticate_def rateLimit_def on_error_def on_proxyReq_def
  on_proxyRes_def relay_def proxy_web_def uuid_v4_def Let_def

lemmas outcome_splits =
  option.split ban_outcome.split auth_outcome.split rate_outcome.split upstream_outcome.split

lemmas trace_defs = stages_def pipeline_order_def List.map_filter_simps

subsection \<open>Order of the stages\<close>










subsection \<open>Facts about the example table\<close>

lemma example_resolves_users:
  "getEndpoint example_cfg ''/api/users/42?x=1'' = Some users_endpoint"
  by code_simp


subsection \<open>Identity resolution\<close>

text \<open>
  Claim C2. When \<^verbatim>\<open>utils.getUserIp\<close> yields no IP (nothing, or the empty string),
  the response is 500 with the message \<^verbatim>\<open>Internal Server Error\<close>, the run consists
  of that call and the abort, and the ban guard, the authenticator and the rate
  limiter are not invoked.
\<close>

theorem unresolved_identity_aborts:
  assumes "env_userIP env = None \<or> env_userIP env = Some []"
  shows "res_sent (serve cfg uuid env u k) = Some (500, ''Internal Server Error'') \<and>
         trace (serve cfg uuid env u k)
           = [GetUserIp (env_userIP env), Abort 500 ''Internal Server Error''] \<and>
         BanCheck \<notin> set (stages (trace (serve cfg uuid env u k))) \<and>
         Authentication \<notin> set (stages (trace (serve cfg uuid env u k))) \<and>
         RateLimiting \<notin> set (stages (trace (serve cfg uuid env u k)))"
  using assms by (auto simp: pipeline_defs trace_defs)

theorem unresolved_identity_aborts_witness:
  "env_userIP (example_env\<lparr>env_userIP := None\<rparr>) = None \<and>
   res_sent (serve example_cfg example_uuid (example_env\<lparr>env_userIP := None\<rparr>)
     ''/api/users/42?x=1'' 0) = Some (500, ''Internal Server Error'') \<and>
   stages (trace (serve example_cfg example_uuid (example_env\<lparr>env_userIP := None\<rparr>)
     ''/api/users/42?x=1'' 0)) = [Identity]"
proof -
  have h: "env_userIP (example_env\<lparr>env_userIP := None\<rparr>) = None" by simp
  then have h': "env_userIP (example_env\<lparr>env_userIP := None\<rparr>) = None \<or>
      env_userIP (example_env\<lparr>env_userIP := None\<rparr>) = Some []" by simp
  from unresolved_identity_aborts [OF h', of example_cfg example_uuid "''/api/users/42?x=1''" 0]
  show ?thesis using h by (simp add: trace_defs)
qed

subsection \<open>The ban guard and the correlation id\<close>

lemma ban_not_passed:
  assumes "env_userIP env = Some ip" and "ip \<noteq> []" and "env_ban env ip \<noteq> BanPass"
  shows "req_requestId (serve cfg uuid env u k) = None \<and>
      res_headers (serve cfg uuid env u k) = Map.empty \<and>
      (\<forall>rid. UuidV4 rid \<notin> set (trace (serve cfg uuid env u k))) \<and>
      Authentication \<notin> set (stages (trace (serve cfg uuid env u k))) \<and>
      RateLimiting \<notin> set (stages (trace (serve cfg uuid env u k)))"
proof (cases "env_ban env ip")
  case BanPass
  with assms(3) show ?thesis by simp
next
  case (BanError e)
  with assms(1,2) show ?thesis by (simp add: pipeline_defs trace_defs)
next
  case (BanDenied s b)
  with assms(1,2) show ?thesis by (simp add: pipeline_defs trace_defs)
qed

lemma ban_denied_response:
  "env_userIP env = Some ip \<and> ip \<noteq> [] \<and> env_ban env ip = BanDenied s b \<longrightarrow>
      res_sent (serve cfg uuid env u k) = Some (s, b) \<and>
      trace (serve cfg uuid env u k)
        = [GetUserIp (Some ip), CheckBan ip (BanDenied s b), CollaboratorResponse s b]"
  by (simp add: pipeline_defs)

lemma request_id_iff_ban_passed:
  "req_requestId (serve cfg uuid env u k) \<noteq> None \<longleftrightarrow>
      (\<exists>ip. env_userIP env = Some ip \<and> ip \<noteq> [] \<and> env_ban env ip = BanPass)"
  by (simp add: pipeline_defs split: outcome_splits)

lemma request_id_before_resolution:
  "env_userIP env = Some ip \<and> ip \<noteq> [] \<and> env_ban env ip = BanPass \<longrightarrow>
      req_requestId (serve cfg uuid env u k) = Some (uuid k) \<and>
      take 4 (trace (serve cfg uuid env u k))
        = [GetUserIp (Some ip), CheckBan ip BanPass, UuidV4 (uuid k),
           GetEndpoint u (getEndpoint cfg u)]"
  by (simp add: pipeline_defs split: outcome_splits)

text \<open>
  Claim C3. When the ban check does not pass (the guard denies the request, or
  fails), no request id is assigned, \<^verbatim>\<open>uuid.v4\<close> is not called, no header is set on
  the response, and neither authentication nor rate limiting is invoked; on a
  denial the guard's own response is what the client gets, and the last event. A
  request id is assigned exactly when the identity is resolved and the ban check
  passes, and then \<^verbatim>\<open>uuid.v4\<close> is called right after the ban check and before
  \<^verbatim>\<open>getEndpoint\<close>.
\<close>

theorem ban_denied_untraced:
  "(env_userIP env = Some ip \<and> ip \<noteq> [] \<and> env_ban env ip \<noteq> BanPass \<longrightarrow>
      req_requestId (serve cfg uuid env u k) = None \<and>
      res_headers (serve cfg uuid env u k) = Map.empty \<and>
      (\<forall>rid. UuidV4 rid \<notin> set (trace (serve cfg uuid env u k))) \<and>
      Authentication \<notin> set (stages (trace (serve cfg uuid env u k))) \<and>
      RateLimiting \<notin> set (stages (trace (serve cfg uuid env u k)))) \<and>
   (env_userIP env = Some ip \<and> ip \<noteq> [] \<and> env_ban env ip = BanDenied s b \<longrightarrow>
      res_sent (serve cfg uuid env u k) = Some (s, b) \<and>
      trace (serve cfg uuid env u k)
        = [GetUserIp (Some ip), CheckBan ip (BanDenied s b), CollaboratorResponse s b]) \<and>
   (req_requestId (serve cfg uuid env u k) \<noteq> None \<longleftrightarrow>
      (\<exists>ip. env_userIP env = Some ip \<and> ip \<noteq> [] \<and> env_ban env ip = BanPass)) \<and>
   (env_userIP env = Some ip \<and> ip \<noteq> [] \<and> env_ban env ip = BanPass \<longrightarrow>
      req_requestId (serve cfg uuid env u k) = Some (uuid k) \<and>
      take 4 (trace (serve cfg uuid env u k))
        = [GetUserIp (Some ip), CheckBan ip BanPass, UuidV4 (uuid k),
           GetEndpoint u (getEndpoint cfg u)])"
proof (intro conjI)
  show "env_userIP env = Some ip \<and> ip \<noteq> [] \<and> env_ban env ip \<noteq> BanPass \<longrightarrow>
      req_requestId (serve cfg uuid env u k) = None \<and>
      res_headers (serve cfg uuid env u k) = Map.empty \<and>
      (\<forall>rid. UuidV4 rid \<notin> set (trace (serve cfg uuid env u k))) \<and>
      Authentication \<notin> set (stages (trace (serve cfg uuid env u k))) \<and>
      RateLimiting \<notin> set (stages (trace (serve cfg uuid env u k)))"
    using ban_not_passed [of env ip cfg uuid u k] by blast
qed (rule ban_denied_response request_id_iff_ban_passed request_id_before_resolution)+

theorem ban_denied_untraced_witness:
  "env_userIP (example_env\<lparr>env_ban := (\<lambda>ip. BanDenied 403 ''Forbidden'')\<rparr>) = Some ''10.0.0.7'' \<and>
   env_ban (example_env\<lparr>env_ban := (\<lambda>ip. BanDenied 403 ''Forbidden'')\<rparr>) ''10.0.0.7''
     = BanDenied 403 ''Forbidden'' \<and>
   req_requestId (serve example_cfg example_uuid
     (example_env\<lparr>env_ban := (\<lambda>ip. BanDenied 403 ''Forbidden'')\<rparr>) ''/api/users/42?x=1'' 0) = None \<and>
   res_headers (serve example_cfg example_uuid
     (example_env\<lparr>env_ban := (\<lambda>ip. BanDenied 403 ''Forbidden'')\<rparr>) ''/api/users/42?x=1'' 0)
     = Map.empty \<and>
   res_sent (serve example_cfg example_uuid
     (example_env\<lparr>env_ban := (\<lambda>ip. BanDenied 403 ''Forbidden'')\<rparr>) ''/api/users/42?x=1'' 0)
     = Some (403, ''Forbidden'') \<and>
   env_ban example_env ''10.0.0.7'' = BanPass \<and>
   req_requestId (serve example_cfg example_uuid example_env ''/api/users/42?x=1'' 0)
     = Some (example_uuid 0)"
proof -
  let ?env = "example_env\<lparr>env_ban := (\<lambda>ip. BanDenied 403 ''Forbidden'')\<rparr>"
  have ip: "env_userIP ?env = Some ''10.0.0.7''" "env_userIP example_env = Some ''10.0.0.7''"
    by (simp_all add: example_env_def)
  have ne: "''10.0.0.7'' \<noteq> []" by simp
  have denied: "env_ban ?env ''10.0.0.7'' = BanDenied 403 ''Forbidden''" by simp
  then have not_passed: "env_ban ?env ''10.0.0.7'' \<noteq> BanPass" by simp
  have pass: "env_ban example_env ''10.0.0.7'' = BanPass" by (simp add: example_env_def)
  note banned = ban_denied_untraced
    [of ?env "''10.0.0.7''" example_cfg example_uuid "''/api/users/42?x=1''" 0 403 "''Forbidden''"]
  note passed = ban_denied_untraced
    [of example_env "''10.0.0.7''" example_cfg example_uuid "''/api/users/42?x=1''" 0 0 "[]"]
  from banned ip(1) ne not_passed
  have a: "req_requestId (serve example_cfg example_uuid ?env ''/api/users/42?x=1'' 0) = None"
    and b: "res_headers (serve example_cfg example_uuid ?env ''/api/users/42?x=1'' 0) = Map.empty"
    by blast+
  from banned ip(1) ne denied
  have c: "res_sent (serve example_cfg example_uuid ?env ''/api/users/42?x=1'' 0)
      = Some (403, ''Forbidden'')"
    by blast
  from passed ip(2) ne pass
  have d: "req_requestId (serve example_cfg example_uuid example_env ''/api/users/42?x=1'' 0)
      = Some (example_uuid 0)"
    by blast
  from ip(1) denied a b c pass d show ?thesis by (intro conjI)
qed

subsection \<open>Authentication errors\<close>

text \<open>
  Claim C4, as the handler has it. For a request that reached a resolved endpoint,
  an error handed by the authenticator to its callback is logged and answered with
  the fixed 500 \<^verbatim>\<open>Internal Server Error\<close> of \<^verbatim>\<open>errorReq\<close>; a failure response the
  authenticator writes itself stays as written; in both cases neither the rate
  limiter nor the proxy is called.
\<close>

theorem authenticator_error_is_generic_500:
  assumes "env_userIP env = Some ip" and "ip \<noteq> []" and "env_ban env ip = BanPass"
    and "getEndpoint cfg u = Some ep"
  shows "(env_auth env ep = AuthError e \<longrightarrow>
            res_sent (serve cfg uuid env u k) = Some (500, ''Internal Server Error'') \<and>
            LoggerError e \<in> set (trace (serve cfg uuid env u k)) \<and>
            RateLimiting \<notin> set (stages (trace (serve cfg uuid env u k))) \<and>
            Forwarding \<notin> set (stages (trace (serve cfg uuid env u k)))) \<and>
         (env_auth env ep = AuthRejected s b \<longrightarrow>
            res_sent (serve cfg uuid env u k) = Some (s, b) \<and>
            RateLimiting \<notin> set (stages (trace (serve cfg uuid env u k))) \<and>
            Forwarding \<notin> set (stages (trace (serve cfg uuid env u k))))"
  using assms by (simp add: pipeline_defs trace_defs)

theorem authenticator_error_is_generic_500_witness:
  "env_auth (example_env\<lparr>env_auth := (\<lambda>ep. AuthError unauthorized)\<rparr>) users_endpoint
     = AuthError unauthorized \<and>
   getEndpoint example_cfg ''/api/users/42?x=1'' = Some users_endpoint \<and>
   res_sent (serve example_cfg example_uuid
     (example_env\<lparr>env_auth := (\<lambda>ep. AuthError unauthorized)\<rparr>) ''/api/users/42?x=1'' 0)
     = Some (500, ''Internal Server Error'') \<and>
   RateLimiting \<notin> set (stages (trace (serve example_cfg example_uuid
     (example_env\<lparr>env_auth := (\<lambda>ep. AuthError unauthorized)\<rparr>) ''/api/users/42?x=1'' 0)))"
proof -
  let ?env = "example_env\<lparr>env_auth := (\<lambda>ep. AuthError unauthorized)\<rparr>"
  have ip: "env_userIP ?env = Some ''10.0.0.7''" by (simp add: example_env_def)
  have ne: "''10.0.0.7'' \<noteq> []" by simp
  have pass: "env_ban ?env ''10.0.0.7'' = BanPass" by (simp add: example_env_def)
  have err: "env_auth ?env users_endpoint = AuthError unauthorized" by simp
  from authenticator_error_is_generic_500 [OF ip ne pass example_resolves_users,
      of unauthorized example_uuid 0] err
  show ?thesis using example_resolves_users by blast
qed

text \<open>
  The authenticator's declared status does not reach the client: an error declared
  as 401 \<^verbatim>\<open>Unauthorized\<close> is answered with 500.
\<close>

theorem authenticator_status_not_relayed:
  "env_auth (example_env\<lparr>env_auth := (\<lambda>ep. AuthError unauthorized)\<rparr>) users_endpoint
     = AuthError unauthorized \<and>
   err_status unauthorized = Some 401 \<and>
   res_sent (serve example_cfg example_uuid
     (example_env\<lparr>env_auth := (\<lambda>ep. AuthError unauthorized)\<rparr>) ''/api/users/42?x=1'' 0)
     = Some (500, ''Internal Server Error'') \<and>
   res_sent (serve example_cfg example_uuid
     (example_env\<lparr>env_auth := (\<lambda>ep. AuthError unauthorized)\<rparr>) ''/api/users/42?x=1'' 0)
     \<noteq> Some (401, err_body unauthorized)"
  by code_simp

subsection \<open>Transport failures of the upstream\<close>

text \<open>
  Claim C8 says that a transport failure of the upstream call is logged and
  answered with a generic internal failure response. On the handler, with the
  upstream refusing the connection, the \<^verbatim>\<open>error\<close> listener logs the error and that
  is the end of the run: no response is written.
\<close>

theorem upstream_failure_only_logged:
  "trace (serve example_cfg example_uuid
     (example_env\<lparr>env_upstream := (\<lambda>opts. UpstreamError refused)\<rparr>) ''/api/users/7'' 0)
   = [GetUserIp (Some ''10.0.0.7''), CheckBan ''10.0.0.7'' BanPass, UuidV4 ''id-'',
      GetEndpoint ''/api/users/7'' (Some users_endpoint),
      Authenticate users_endpoint (AuthOk ''token-1''),
      RateLimit users_endpoint (Some ''token-1'') RateAdmit,
      ProxyWeb \<lparr>opt_target = ''http://users-svc/7'', opt_ignorePath = True, opt_xfwd = True,
                opt_preserveHeaderKeyCase = True, opt_secure = False\<rparr> (UpstreamError refused),
      LoggerError refused] \<and>
   res_sent (serve example_cfg example_uuid
     (example_env\<lparr>env_upstream := (\<lambda>opts. UpstreamError refused)\<rparr>) ''/api/users/7'' 0) = None"
  by code_simp

subsection \<open>Requests without a route\<close>





section \<open>Endpoint resolution and rewriting\<close>

subsection \<open>A match lies inside the string\<close>

lemma star_iter_bounds:
  assumes f: "\<And>st st'. fst st \<le> n \<Longrightarrow> st' \<in> set (f st) \<Longrightarrow> fst st \<le> fst st' \<and> fst st' \<le> n"
  shows "fst st \<le> n \<Longrightarrow> st' \<in> set (star_iter k f st) \<Longrightarrow> fst st \<le> fst st' \<and> fst st' \<le> n"
proof (induction k arbitrary: st st')
  case 0
  then show ?case by simp
next
  case (Suc k)
  from Suc.prems(2) have "st' = st \<or>
    (\<exists>mid \<in> set (f st). st' \<in> set (if fst st < fst mid then star_iter k f mid else []))"
    by auto
  then show ?case
  proof
    assume "st' = st"
    with Suc.prems(1) show ?thesis by simp
  next
    assume "\<exists>mid \<in> set (f st). st' \<in> set (if fst st < fst mid then star_iter k f mid else [])"
    then obtain mid where mid: "mid \<in> set (f st)"
      and in_if: "st' \<in> set (if fst st < fst mid then star_iter k f mid else [])" by blast
    have mid2: "st' \<in> set (star_iter k f mid)"
    proof (cases "fst st < fst mid")
      case True
      with in_if show ?thesis by simp
    next
      case False
      with in_if show ?thesis by simp
    qed
    from f [OF Suc.prems(1) mid] have b: "fst st \<le> fst mid" "fst mid \<le> n" by simp_all
    from Suc.IH [OF b(2) mid2] b show ?thesis by simp
  qed
qed

lemma rmatch_bounds:
  "fst st \<le> length s \<Longrightarrow> st' \<in> set (rmatch r s st) \<Longrightarrow> fst st \<le> fst st' \<and> fst st' \<le> length s"
proof (induction r arbitrary: st st')
  case (Chr c)
  show ?case
  proof (cases "fst st < length s \<and> s ! fst st = c")
    case True
    with Chr show ?thesis by simp
  next
    case False
    with Chr show ?thesis by simp
  qed
next
  case AnyChar
  show ?case
  proof (cases "fst st < length s \<and> \<not> line_terminator (s ! fst st)")
    case True
    with AnyChar show ?thesis by simp
  next
    case False
    with AnyChar show ?thesis by simp
  qed
next
  case Bol
  show ?case
  proof (cases "fst st = 0")
    case True
    with Bol show ?thesis by simp
  next
    case False
    with Bol show ?thesis by simp
  qed
next
  case Eol
  show ?case
  proof (cases "fst st = length s")
    case True
    with Eol show ?thesis by simp
  next
    case False
    with Eol show ?thesis by simp
  qed
next
  case Eps
  then show ?case by simp
next
  case (Seq a b)
  from Seq.prems(2) obtain mid where mid: "mid \<in> set (rmatch a s st)" "st' \<in> set (rmatch b s mid)"
    by auto
  from Seq.IH(1) [OF Seq.prems(1) mid(1)] have b1: "fst st \<le> fst mid" "fst mid \<le> length s" by simp_all
  from Seq.IH(2) [OF b1(2) mid(2)] b1 show ?case by simp
next
  case (Alt a b)
  from Alt.prems(2) have "st' \<in> set (rmatch a s st) \<or> st' \<in> set (rmatch b s st)" by simp
  then show ?case using Alt.IH Alt.prems(1) by blast
next
  case (Star a)
  from Star.prems(2) have "st' \<in> set (star_iter (length s) (rmatch a s) st)" by simp
  with star_iter_bounds [of "length s" "rmatch a s" st st' "length s"] Star.IH Star.prems(1)
  show ?case by blast
next
  case (Group n a)
  from Group.prems(2) obtain inner where inner: "inner \<in> set (rmatch a s st)" "fst st' = fst inner"
    by auto
  from Group.IH [OF Group.prems(1) inner(1)] inner(2) show ?case by simp
qed




text \<open>
  The fuel of the star is enough: once it covers what is left of the string, more
  fuel gives the same matches, so \<open>length s\<close> iterations are all there can be.
\<close>

lemma star_iter_fuel:
  assumes f: "\<And>st st'. fst st \<le> n \<Longrightarrow> st' \<in> set (f st) \<Longrightarrow> fst st' \<le> n"
  shows "fst st \<le> n \<Longrightarrow> n - fst st \<le> k \<Longrightarrow> star_iter (Suc k) f st = star_iter k f st"
proof (induction k arbitrary: st)
  case 0
  then have "n \<le> fst st" by simp
  have "\<forall>st' \<in> set (f st). \<not> fst st < fst st'"
  proof
    fix st' assume "st' \<in> set (f st)"
    from f [OF "0.prems"(1) this] \<open>n \<le> fst st\<close> show "\<not> fst st < fst st'" by simp
  qed
  then have "map (\<lambda>st'. if fst st < fst st' then star_iter 0 f st' else []) (f st)
      = map (\<lambda>st'. []) (f st)"
    by (intro map_cong) simp_all
  then have "star_iter (Suc 0) f st = concat (map (\<lambda>st'. []) (f st)) @ [st]"
    by (simp only: star_iter.simps)
  then show ?case by simp
next
  case (Suc k)
  have "map (\<lambda>st'. if fst st < fst st' then star_iter (Suc k) f st' else []) (f st)
      = map (\<lambda>st'. if fst st < fst st' then star_iter k f st' else []) (f st)"
  proof (intro map_cong refl)
    fix st' assume mem: "st' \<in> set (f st)"
    show "(if fst st < fst st' then star_iter (Suc k) f st' else [])
        = (if fst st < fst st' then star_iter k f st' else [])"
    proof (cases "fst st < fst st'")
      case True
      with Suc.prems have "n - fst st' \<le> k" by simp
      moreover from f [OF Suc.prems(1) mem] have "fst st' \<le> n" .
      ultimately have "star_iter (Suc k) f st' = star_iter k f st'" by (rule Suc.IH [rotated])
      with True show ?thesis by simp
    next
      case False
      then show ?thesis by simp
    qed
  qed
  then have "star_iter (Suc (Suc k)) f st
      = concat (map (\<lambda>st'. if fst st < fst st' then star_iter k f st' else []) (f st)) @ [st]"
    by (simp only: star_iter.simps)
  then show ?case by (simp only: star_iter.simps)
qed

lemma star_fuel_enough:
  assumes "fst st \<le> length s"
  shows "star_iter (length s + d) (rmatch a s) st = rmatch (Star a) s st"
proof (induction d)
  case 0
  show ?case by simp
next
  case (Suc d)
  have "star_iter (Suc (length s + d)) (rmatch a s) st = star_iter (length s + d) (rmatch a s) st"
  proof (rule star_iter_fuel [where n = "length s"])
    fix st st' assume "fst st \<le> length s" and "st' \<in> set (rmatch a s st)"
    then show "fst st' \<le> length s" using rmatch_bounds by blast
  next
    show "fst st \<le> length s" by (rule assms)
  next
    show "length s - fst st \<le> length s + d" by simp
  qed
  with Suc show ?case by simp
qed


subsection \<open>The first matching entry\<close>

lemma getEndpoint_None: "getEndpoint cfg u = None \<longleftrightarrow> (\<forall>e \<in> set cfg. \<not> regex_test (pattern e) u)"
  by (induction cfg) simp_all

lemma getEndpoint_first:
  "i < length cfg \<Longrightarrow> regex_test (pattern (cfg ! i)) u \<Longrightarrow>
   \<forall>l < i. \<not> regex_test (pattern (cfg ! l)) u \<Longrightarrow> getEndpoint cfg u = Some (cfg ! i)"
proof (induction cfg arbitrary: i)
  case Nil
  then show ?case by simp
next
  case (Cons e es)
  show ?case
  proof (cases i)
    case 0
    with Cons.prems show ?thesis by simp
  next
    case (Suc i')
    from Suc Cons.prems(3) have "\<not> regex_test (pattern ((e # es) ! 0)) u" by blast
    then have first: "\<not> regex_test (pattern e) u" by simp
    have "\<forall>l < i'. \<not> regex_test (pattern (es ! l)) u"
    proof (intro allI impI)
      fix l assume "l < i'"
      with Suc have "Suc l < i" by simp
      with Cons.prems(3) have "\<not> regex_test (pattern ((e # es) ! Suc l)) u" by blast
      then show "\<not> regex_test (pattern (es ! l)) u" by simp
    qed
    moreover from Suc Cons.prems(1) have "i' < length es" by simp
    moreover from Suc Cons.prems(2) have "regex_test (pattern (es ! i')) u" by simp
    ultimately have "getEndpoint es u = Some (es ! i')" by (rule Cons.IH [rotated 2])
    with first Suc show ?thesis by simp
  qed
qed

lemma getEndpoint_Some:
  "getEndpoint cfg u = Some e \<Longrightarrow>
   \<exists>i < length cfg. cfg ! i = e \<and> regex_test (pattern (cfg ! i)) u \<and>
     (\<forall>l < i. \<not> regex_test (pattern (cfg ! l)) u)"
proof (induction cfg)
  case Nil
  then show ?case by simp
next
  case (Cons a es)
  show ?case
  proof (cases "regex_test (pattern a) u")
    case True
    with Cons.prems have "a = e" by simp
    with True have "0 < length (a # es) \<and> (a # es) ! 0 = e \<and>
        regex_test (pattern ((a # es) ! 0)) u \<and>
        (\<forall>l < 0. \<not> regex_test (pattern ((a # es) ! l)) u)" by simp
    then show ?thesis by (rule exI [of _ 0])
  next
    case False
    with Cons.prems have "getEndpoint es u = Some e" by simp
    from Cons.IH [OF this] obtain i where i: "i < length es" "es ! i = e"
      "regex_test (pattern (es ! i)) u" "\<forall>l < i. \<not> regex_test (pattern (es ! l)) u" by blast
    have "\<forall>l < Suc i. \<not> regex_test (pattern ((a # es) ! l)) u"
    proof (intro allI impI)
      fix l assume l: "l < Suc i"
      show "\<not> regex_test (pattern ((a # es) ! l)) u"
      proof (cases l)
        case 0
        with False show ?thesis by simp
      next
        case (Suc l')
        with l i(4) show ?thesis by simp
      qed
    qed
    with i have "Suc i < length (a # es) \<and> (a # es) ! Suc i = e \<and>
        regex_test (pattern ((a # es) ! Suc i)) u \<and>
        (\<forall>l < Suc i. \<not> regex_test (pattern ((a # es) ! l)) u)" by simp
    then show ?thesis by (rule exI [of _ "Suc i"])
  qed
qed

subsection \<open>What the handler passes on\<close>

lemma authenticated_endpoint:
  "Authenticate ep out \<in> set (trace (serve cfg uuid env u k)) \<Longrightarrow> getEndpoint cfg u = Some ep"
  by (simp add: pipeline_defs split: option.splits ban_outcome.splits auth_outcome.splits
      rate_outcome.splits upstream_outcome.splits if_splits)

lemma forwarded_options:
  "ProxyWeb opts out \<in> set (trace (serve cfg uuid env u k)) \<Longrightarrow>
   \<exists>ep. getEndpoint cfg u = Some ep \<and>
     opts = \<lparr>opt_target = js_replace u (pattern ep) (target ep), opt_ignorePath = True,
             opt_xfwd = True, opt_preserveHeaderKeyCase = True, opt_secure = False\<rparr>"
  by (simp add: pipeline_defs split: option.splits ban_outcome.splits auth_outcome.splits
      rate_outcome.splits upstream_outcome.splits if_splits)

lemma resolved_url:
  "GetEndpoint a r \<in> set (trace (serve cfg uuid env u k)) \<Longrightarrow> a = u \<and> r = getEndpoint cfg u"
  by (simp add: pipeline_defs split: option.splits ban_outcome.splits auth_outcome.splits
      rate_outcome.splits upstream_outcome.splits if_splits)


lemma versioned_v2: "getEndpoint versioned_cfg ''/api/items?v=2'' = Some v2_endpoint"
  by code_simp

lemma versioned_v1: "getEndpoint versioned_cfg ''/api/items?v=1'' = Some api_endpoint"
  by code_simp

lemma versioned_path: "getEndpoint versioned_cfg (path_of ''/api/items?v=2'') = Some api_endpoint"
  by code_simp

lemma versioned_rewrite:
  "js_replace ''/api/items?v=2'' (pattern v2_endpoint) (target v2_endpoint) = ''http://v2-svc/items''"
  by code_simp

text \<open>
  Claim C5. \<^verbatim>\<open>getEndpoint\<close> returns nothing exactly when no pattern of the table
  matches the URL, and otherwise the entry at the least index whose pattern
  matches: of two or more matching entries the one declared first. It is a function
  of the table and the URL, and the endpoint handed to the authenticator is that
  entry.
\<close>

theorem getEndpoint_first_match:
  "(getEndpoint cfg u = None \<longleftrightarrow> (\<forall>e \<in> set cfg. \<not> regex_test (pattern e) u)) \<and>
   (getEndpoint cfg u = Some e \<longleftrightarrow>
      (\<exists>i < length cfg. cfg ! i = e \<and> regex_test (pattern (cfg ! i)) u \<and>
         (\<forall>l < i. \<not> regex_test (pattern (cfg ! l)) u))) \<and>
   (Authenticate ep out \<in> set (trace (serve cfg uuid env u k)) \<longrightarrow> getEndpoint cfg u = Some ep)"
proof (intro conjI)
  show "getEndpoint cfg u = None \<longleftrightarrow> (\<forall>e \<in> set cfg. \<not> regex_test (pattern e) u)"
    by (rule getEndpoint_None)
  show "getEndpoint cfg u = Some e \<longleftrightarrow>
      (\<exists>i < length cfg. cfg ! i = e \<and> regex_test (pattern (cfg ! i)) u \<and>
         (\<forall>l < i. \<not> regex_test (pattern (cfg ! l)) u))"
  proof
    assume "getEndpoint cfg u = Some e"
    then show "\<exists>i < length cfg. cfg ! i = e \<and> regex_test (pattern (cfg ! i)) u \<and>
         (\<forall>l < i. \<not> regex_test (pattern (cfg ! l)) u)"
      by (rule getEndpoint_Some)
  next
    assume "\<exists>i < length cfg. cfg ! i = e \<and> regex_test (pattern (cfg ! i)) u \<and>
         (\<forall>l < i. \<not> regex_test (pattern (cfg ! l)) u)"
    then obtain i where i: "i < length cfg" "cfg ! i = e" "regex_test (pattern (cfg ! i)) u"
      "\<forall>l < i. \<not> regex_test (pattern (cfg ! l)) u" by blast
    from getEndpoint_first [OF i(1) i(3) i(4)] i(2) show "getEndpoint cfg u = Some e" by simp
  qed
  show "Authenticate ep out \<in> set (trace (serve cfg uuid env u k)) \<longrightarrow> getEndpoint cfg u = Some ep"
    using authenticated_endpoint by blast
qed

theorem getEndpoint_first_match_witness:
  "regex_test (pattern (example_cfg ! 0)) ''/api/users/42?x=1'' \<and>
   regex_test (pattern (example_cfg ! 1)) ''/api/users/42?x=1'' \<and>
   example_cfg ! 0 = users_endpoint \<and> example_cfg ! 1 = api_endpoint \<and>
   getEndpoint example_cfg ''/api/users/42?x=1'' = Some users_endpoint \<and>
   getEndpoint example_cfg ''/api/users/42?x=1'' \<noteq> Some api_endpoint"
proof -
  have m0: "regex_test (pattern (example_cfg ! 0)) ''/api/users/42?x=1''" by code_simp
  have m1: "regex_test (pattern (example_cfg ! 1)) ''/api/users/42?x=1''" by code_simp
  have e0: "example_cfg ! 0 = users_endpoint" and e1: "example_cfg ! 1 = api_endpoint"
    by (simp_all add: example_cfg_def)
  have ne: "users_endpoint \<noteq> api_endpoint" by (simp add: users_endpoint_def api_endpoint_def)
  have "\<exists>i < length example_cfg. example_cfg ! i = users_endpoint \<and>
      regex_test (pattern (example_cfg ! i)) ''/api/users/42?x=1'' \<and>
      (\<forall>l < i. \<not> regex_test (pattern (example_cfg ! l)) ''/api/users/42?x=1'')"
    using m0 e0 by (intro exI [of _ 0]) (simp add: example_cfg_def)
  with getEndpoint_first_match [of example_cfg "''/api/users/42?x=1''" users_endpoint]
  have "getEndpoint example_cfg ''/api/users/42?x=1'' = Some users_endpoint" by blast
  with m0 m1 e0 e1 ne show ?thesis by simp
qed



text \<open>
  Claim C10. The handler resolves the endpoint on \<^verbatim>\<open>req.url\<close>, path and query
  string together: the pattern of the resolved entry matches that whole string, and
  the rewrite is \<^verbatim>\<open>replace\<close> on the same string. Two URLs with the same path and
  different query strings can resolve to different endpoints, and the URL can
  resolve differently from its path alone.
\<close>

theorem routing_on_full_url:
  "(GetEndpoint a r \<in> set (trace (serve cfg uuid env u k)) \<longrightarrow> a = u \<and> r = getEndpoint cfg u) \<and>
   (getEndpoint cfg u = Some e \<longrightarrow> e \<in> set cfg \<and> regex_test (pattern e) u) \<and>
   (ProxyWeb opts out \<in> set (trace (serve cfg uuid env u k)) \<longrightarrow>
      (\<exists>ep. getEndpoint cfg u = Some ep \<and>
         opt_target opts = js_replace u (pattern ep) (target ep))) \<and>
   path_of ''/api/items?v=2'' = path_of ''/api/items?v=1'' \<and>
   getEndpoint versioned_cfg ''/api/items?v=2'' = Some v2_endpoint \<and>
   getEndpoint versioned_cfg ''/api/items?v=1'' = Some api_endpoint \<and>
   getEndpoint versioned_cfg (path_of ''/api/items?v=2'') = Some api_endpoint \<and>
   v2_endpoint \<noteq> api_endpoint \<and>
   js_replace ''/api/items?v=2'' (pattern v2_endpoint) (target v2_endpoint) = ''http://v2-svc/items''"
proof -
  have url: "GetEndpoint a r \<in> set (trace (serve cfg uuid env u k)) \<longrightarrow>
      a = u \<and> r = getEndpoint cfg u"
    using resolved_url by blast
  have tested: "getEndpoint cfg u = Some e \<longrightarrow> e \<in> set cfg \<and> regex_test (pattern e) u"
  proof
    assume "getEndpoint cfg u = Some e"
    from getEndpoint_Some [OF this] show "e \<in> set cfg \<and> regex_test (pattern e) u"
      by (auto simp: in_set_conv_nth)
  qed
  have rewritten: "ProxyWeb opts out \<in> set (trace (serve cfg uuid env u k)) \<longrightarrow>
      (\<exists>ep. getEndpoint cfg u = Some ep \<and>
         opt_target opts = js_replace u (pattern ep) (target ep))"
  proof
    assume "ProxyWeb opts out \<in> set (trace (serve cfg uuid env u k))"
    from forwarded_options [OF this]
    show "\<exists>ep. getEndpoint cfg u = Some ep \<and>
         opt_target opts = js_replace u (pattern ep) (target ep)" by auto
  qed
  have paths: "path_of ''/api/items?v=2'' = path_of ''/api/items?v=1''"
    by (simp add: path_of_def)
  have ne: "v2_endpoint \<noteq> api_endpoint"
    by (simp add: v2_endpoint_def api_endpoint_def)
  from url tested rewritten paths versioned_v2 versioned_v1 versioned_path ne versioned_rewrite
  show ?thesis by (intro conjI)
qed

theorem routing_on_full_url_witness:
  "GetEndpoint ''/api/items?v=2'' (Some v2_endpoint)
     \<in> set (trace (serve versioned_cfg example_uuid example_env ''/api/items?v=2'' 0)) \<and>
   getEndpoint versioned_cfg ''/api/items?v=2'' = Some v2_endpoint \<and>
   regex_test (pattern v2_endpoint) ''/api/items?v=2'' \<and>
   \<not> regex_test (pattern v2_endpoint) (path_of ''/api/items?v=2'') \<and>
   ProxyWeb \<lparr>opt_target = ''http://v2-svc/items'', opt_ignorePath = True, opt_xfwd = True,
             opt_preserveHeaderKeyCase = True, opt_secure = False\<rparr> (UpstreamResponse 200 ''ok'')
     \<in> set (trace (serve versioned_cfg example_uuid example_env ''/api/items?v=2'' 0)) \<and>
   (\<exists>ep. getEndpoint versioned_cfg ''/api/items?v=2'' = Some ep \<and>
      ''http://v2-svc/items'' = js_replace ''/api/items?v=2'' (pattern ep) (target ep))"
proof -
  let ?opts = "\<lparr>opt_target = ''http://v2-svc/items'', opt_ignorePath = True, opt_xfwd = True,
             opt_preserveHeaderKeyCase = True, opt_secure = False\<rparr>"
  let ?out = "UpstreamResponse 200 ''ok''"
  let ?t = "trace (serve versioned_cfg example_uuid example_env ''/api/items?v=2'' 0)"
  have g: "GetEndpoint ''/api/items?v=2'' (Some v2_endpoint) \<in> set ?t" by code_simp
  have p: "ProxyWeb ?opts ?out \<in> set ?t" by code_simp
  have np: "\<not> regex_test (pattern v2_endpoint) (path_of ''/api/items?v=2'')" by code_simp
  note inst = routing_on_full_url
    [of "''/api/items?v=2''" "Some v2_endpoint" versioned_cfg example_uuid example_env
        "''/api/items?v=2''" 0 v2_endpoint ?opts ?out]
  from inst g have res: "Some v2_endpoint = getEndpoint versioned_cfg ''/api/items?v=2''" by blast
  with inst have t: "regex_test (pattern v2_endpoint) ''/api/items?v=2''" by metis
  from inst p have "\<exists>ep. getEndpoint versioned_cfg ''/api/items?v=2'' = Some ep \<and>
      opt_target ?opts = js_replace ''/api/items?v=2'' (pattern ep) (target ep)" by blast
  then have "\<exists>ep. getEndpoint versioned_cfg ''/api/items?v=2'' = Some ep \<and>
      ''http://v2-svc/items'' = js_replace ''/api/items?v=2'' (pattern ep) (target ep)" by simp
  with g p np res t show ?thesis by simp
qed


section \<open>The correlation id across requests\<close>




lemma length_serve_all: "length (serve_all cfg uuid k rs) = length rs"
  by (induction rs arbitrary: k) (simp_all add: Let_def)








end
